theory Spec2Isabelle
  imports Complex_Main "HOL-Library.Log_Nat"
begin

section \<open>Python exceptions\<close>

text \<open>
  Every exception that the modelled statements of \<open>src/imageOp.py\<close> can raise is a
  value; a function that may raise returns \<open>py_error + 'a\<close> with \<open>Inl\<close> the exception.
  The string is the message, kept only to tell the raising statements apart.
\<close>

datatype py_error =
    ValueError string
  | OverflowError string
  | IndexError string
  | RuntimeError string

definition broadcast_error :: py_error where
  "broadcast_error = ValueError ''operands could not be broadcast together''"

definition nan_to_int_error :: py_error where
  "nan_to_int_error = ValueError ''cannot convert float NaN to integer''"

definition inf_to_int_error :: py_error where
  "inf_to_int_error = OverflowError ''cannot convert float infinity to integer''"

fun is_ValueError :: "py_error \<Rightarrow> bool" where
  "is_ValueError (ValueError m) = True"
| "is_ValueError e = False"

text \<open>Sequencing of statements that may raise: the first exception ends the run.\<close>

definition bind_err :: "py_error + 'a \<Rightarrow> ('a \<Rightarrow> py_error + 'b) \<Rightarrow> py_error + 'b" where
  "bind_err r f = (case r of Inl e \<Rightarrow> Inl e | Inr x \<Rightarrow> f x)"

text \<open>A list comprehension \<open>[f(x) for x in xs]\<close>: elements are converted left to right.\<close>

fun map_err :: "('a \<Rightarrow> py_error + 'b) \<Rightarrow> 'a list \<Rightarrow> py_error + 'b list" where
  "map_err f [] = Inr []"
| "map_err f (x # xs) =
     (case f x of
        Inl e \<Rightarrow> Inl e
      | Inr y \<Rightarrow> (case map_err f xs of Inl e \<Rightarrow> Inl e | Inr ys \<Rightarrow> Inr (y # ys)))"


section \<open>IEEE 754 binary64 arithmetic\<close>

text \<open>
  \<open>numpy.float64\<close> and Python's \<open>float\<close> are IEEE 754 binary64. A value is a finite
  rational, an infinity or NaN. Each arithmetic operation returns the exact result
  rounded to the nearest representable number, ties to the even significand
  (\<open>round64\<close>). The model has one zero: \<open>-0.0\<close> is read as \<open>0.0\<close>, which differs
  from the hardware only in the sign of \<open>x / -0.0\<close>. numpy's default error state
  turns a division by zero or an invalid operation into a warning, not an exception,
  so these operations return \<open>inf\<close> or \<open>nan\<close>.
\<close>

datatype f64 = Fin rat | PInf | NInf | NaN

text \<open>\<open>2 ^ e\<close> for an integer exponent.\<close>

definition pow2 :: "int \<Rightarrow> rat" where
  "pow2 e = (if 0 \<le> e then 2 ^ nat e else 1 / 2 ^ nat (- e))"

text \<open>The exponent \<open>e\<close> with \<open>2 ^ e \<le> x < 2 ^ (e + 1)\<close>, for \<open>x > 0\<close>.\<close>

definition floor_log2 :: "rat \<Rightarrow> int" where
  "floor_log2 x =
     (if 1 \<le> x then bitlen \<lfloor>x\<rfloor> - 1 else - bitlen (\<lceil>1 / x\<rceil> - 1))"

text \<open>Round to the nearest integer, ties to the even one (\<open>rint\<close>).\<close>

definition round_half_even :: "rat \<Rightarrow> int" where
  "round_half_even x =
     (let f = \<lfloor>x\<rfloor>; d = x - of_int f
      in if d < 1 / 2 then f
         else if 1 / 2 < d then f + 1
         else if even f then f else f + 1)"

text \<open>
  Rounding of an exact result to binary64: 53 significant bits, the exponent of a
  subnormal number fixed at \<open>-1022\<close>, overflow to infinity when the rounded
  magnitude reaches \<open>2 ^ 1024\<close> (its exponent is then at least 1024).
\<close>

definition round64 :: "rat \<Rightarrow> f64" where
  "round64 x =
     (if x = 0 then Fin 0
      else
        let e = max (floor_log2 \<bar>x\<bar>) (- 1022);
            q = pow2 (e - 52);
            y = of_int (round_half_even (x / q)) * q
        in if 1024 \<le> floor_log2 \<bar>y\<bar> then (if 0 < y then PInf else NInf)
           else Fin y)"

fun fdiv :: "f64 \<Rightarrow> f64 \<Rightarrow> f64" where
  "fdiv NaN b = NaN"
| "fdiv a NaN = NaN"
| "fdiv (Fin x) (Fin y) =
     (if y = 0 then (if x = 0 then NaN else if 0 < x then PInf else NInf)
      else round64 (x / y))"
| "fdiv (Fin x) PInf = Fin 0"
| "fdiv (Fin x) NInf = Fin 0"
| "fdiv PInf (Fin y) = (if 0 \<le> y then PInf else NInf)"
| "fdiv NInf (Fin y) = (if 0 \<le> y then NInf else PInf)"
| "fdiv PInf PInf = NaN"
| "fdiv PInf NInf = NaN"
| "fdiv NInf PInf = NaN"
| "fdiv NInf NInf = NaN"

fun fmul :: "f64 \<Rightarrow> f64 \<Rightarrow> f64" where
  "fmul NaN b = NaN"
| "fmul a NaN = NaN"
| "fmul (Fin x) (Fin y) = round64 (x * y)"
| "fmul (Fin x) PInf = (if x = 0 then NaN else if 0 < x then PInf else NInf)"
| "fmul (Fin x) NInf = (if x = 0 then NaN else if 0 < x then NInf else PInf)"
| "fmul PInf (Fin y) = (if y = 0 then NaN else if 0 < y then PInf else NInf)"
| "fmul NInf (Fin y) = (if y = 0 then NaN else if 0 < y then NInf else PInf)"
| "fmul PInf PInf = PInf"
| "fmul PInf NInf = NInf"
| "fmul NInf PInf = NInf"
| "fmul NInf NInf = PInf"

text \<open>\<open>numpy.round\<close> with no decimals is \<open>rint\<close>; the result is again a float.\<close>

fun np_round :: "f64 \<Rightarrow> f64" where
  "np_round (Fin x) = Fin (of_int (round_half_even x))"
| "np_round a = a"

text \<open>Conversion of an integer (an entry of \<open>img.shape\<close>) to float64.\<close>

definition f64_of_nat :: "nat \<Rightarrow> f64" where
  "f64_of_nat n = round64 (of_nat n)"

text \<open>
  Python's \<open>int(x)\<close> on a float truncates towards zero and raises on a non-finite
  value.
\<close>

fun py_int :: "f64 \<Rightarrow> py_error + int" where
  "py_int (Fin x) = Inr (if 0 \<le> x then \<lfloor>x\<rfloor> else \<lceil>x\<rceil>)"
| "py_int NaN = Inl nan_to_int_error"
| "py_int a = Inl inf_to_int_error"


section \<open>numpy arrays\<close>

text \<open>
  An n-dimensional array is its \<open>shape\<close> and its samples, read by index vector.
  \<open>numpy.transpose\<close> with no axes argument reverses the axes.
\<close>

record 'v ndarray =
  shape :: "nat list"
  item :: "nat list \<Rightarrow> 'v"

definition np_transpose :: "'v ndarray \<Rightarrow> 'v ndarray" where
  "np_transpose a = \<lparr>shape = rev (shape a), item = (\<lambda>idx. item a (rev idx))\<rparr>"

text \<open>
  An elementwise operation on two one-dimensional arrays follows numpy's broadcasting
  rule: equal lengths, or one of the operands of length one, which is then repeated;
  anything else raises \<open>ValueError\<close>.
\<close>

definition np_broadcast :: "('a \<Rightarrow> 'b \<Rightarrow> 'c) \<Rightarrow> 'a list \<Rightarrow> 'b list \<Rightarrow> py_error + 'c list" where
  "np_broadcast f xs ys =
     (if length xs = length ys then Inr (map2 f xs ys)
      else if length xs = 1 then Inr (map (f (hd xs)) ys)
      else if length ys = 1 then Inr (map (\<lambda>x. f x (hd ys)) xs)
      else Inl broadcast_error)"


section \<open>get_resize_factor\<close>

text \<open>
  \<open>spacing\<close> and \<open>target_spacing\<close> become float64 arrays (\<open>numpy.asarray\<close>; an
  integer entry is converted to the float of the same value), \<open>img.shape\<close> is
  converted to float64 when it meets a float array. The function reads \<open>img.shape\<close>
  only.
\<close>

definition get_resize_factor :: "'v ndarray \<Rightarrow> f64 list \<Rightarrow> f64 list \<Rightarrow> py_error + f64 list" where
  "get_resize_factor img spacing target_spacing =
     (let old_spacing = spacing;
          new_spacing = target_spacing
      in bind_err (np_broadcast fdiv old_spacing new_spacing) (\<lambda>resize_factor.
         bind_err (np_broadcast fmul (map f64_of_nat (shape img)) resize_factor) (\<lambda>new_shape.
         let new_shape = map np_round new_shape
         in np_broadcast fdiv new_shape (map f64_of_nat (shape img)))))"

text \<open>
  The three steps of the specification, for one axis of extent \<open>n\<close>, old spacing
  \<open>s_old\<close> and new spacing \<open>s_new\<close>: the first-pass factor, the provisional
  shape rounded from it, and the factor recomputed from the provisional shape.
\<close>

definition first_pass_factor :: "f64 \<Rightarrow> f64 \<Rightarrow> f64" where
  "first_pass_factor s_old s_new = fdiv s_old s_new"

definition provisional_shape :: "nat \<Rightarrow> f64 \<Rightarrow> f64 \<Rightarrow> f64" where
  "provisional_shape n s_old s_new = np_round (fmul (f64_of_nat n) (first_pass_factor s_old s_new))"

definition recomputed_factor :: "nat \<Rightarrow> f64 \<Rightarrow> f64 \<Rightarrow> f64" where
  "recomputed_factor n s_old s_new = fdiv (provisional_shape n s_old s_new) (f64_of_nat n)"

text \<open>
  Line 349 of \<open>resample_image\<close> multiplies the factor by the extent again; this
  is the float that \<open>int\<close> then converts, for one axis.
\<close>

definition axis_new_shape :: "nat \<Rightarrow> f64 \<Rightarrow> f64 \<Rightarrow> f64" where
  "axis_new_shape n s_old s_new = fmul (recomputed_factor n s_old s_new) (f64_of_nat n)"


section \<open>SimpleITK images\<close>

text \<open>
  An image as \<open>SimpleITK.ReadImage\<close> returns it: size, spacing, origin and direction
  in the order \<open>(x, y, z)\<close>, the number of components of a pixel (1 for a scalar
  image) and the samples. \<open>GetPixel\<close> reads a sample by its index; for a pixel of
  several components the number of the component is the last entry of the index.
  The setters reject a vector whose length is not the image's dimension.
\<close>

record 'v sitk_image =
  GetSize :: "nat list"
  GetSpacing :: "f64 list"
  GetOrigin :: "f64 list"
  GetDirection :: "f64 list"
  GetNumberOfComponentsPerPixel :: nat
  GetPixel :: "nat list \<Rightarrow> 'v"

text \<open>
  \<open>GetArrayFromImage\<close> gives the array with the axes reversed; the components of
  a pixel, when there are several, are one more axis, the last.
\<close>

definition GetArrayFromImage :: "'v sitk_image \<Rightarrow> 'v ndarray" where
  "GetArrayFromImage im =
     (if 1 < GetNumberOfComponentsPerPixel im
      then \<lparr>shape = rev (GetSize im) @ [GetNumberOfComponentsPerPixel im],
            item = (\<lambda>idx. GetPixel im (rev (butlast idx) @ [last idx]))\<rparr>
      else \<lparr>shape = rev (GetSize im), item = (\<lambda>idx. GetPixel im (rev idx))\<rparr>)"

text \<open>
  \<open>GetImageFromArray\<close> is called with \<open>isVector=None\<close>: an array of four axes
  is then read as a three-dimensional image of vector pixels, the last axis holding
  the components; an array of two, three or five axes becomes a scalar image of as
  many axes. The image has the default geometry. SimpleITK has no image of fewer
  than two or more than five axes.
\<close>

definition unsupported_dimension_error :: py_error where
  "unsupported_dimension_error = RuntimeError ''unsupported number of dimensions''"

definition GetImageFromArray :: "'v ndarray \<Rightarrow> py_error + 'v sitk_image" where
  "GetImageFromArray a =
     (let isVector = (length (shape a) = 4);
          number_of_components = (if isVector then last (shape a) else 1);
          extent = (if isVector then rev (butlast (shape a)) else rev (shape a));
          d = length extent
      in if length (shape a) < 2 \<or> 5 < length (shape a) then Inl unsupported_dimension_error
         else Inr \<lparr>GetSize = extent,
                  GetSpacing = replicate d (Fin 1),
                  GetOrigin = replicate d (Fin 0),
                  GetDirection = map (\<lambda>k. if k div d = k mod d then Fin 1 else Fin 0) [0..<d * d],
                  GetNumberOfComponentsPerPixel = number_of_components,
                  GetPixel =
                    (if 1 < number_of_components
                     then (\<lambda>idx. item a (rev (butlast idx) @ [last idx]))
                     else if isVector then (\<lambda>idx. item a (rev idx @ [0]))
                     else (\<lambda>idx. item a (rev idx)))\<rparr>)"

definition dimension_error :: py_error where
  "dimension_error = RuntimeError ''vector dimension mismatch''"

definition SetOrigin :: "'v sitk_image \<Rightarrow> f64 list \<Rightarrow> py_error + 'v sitk_image" where
  "SetOrigin im v =
     (if length v = length (GetSize im) then Inr (im\<lparr>GetOrigin := v\<rparr>) else Inl dimension_error)"

definition SetDirection :: "'v sitk_image \<Rightarrow> f64 list \<Rightarrow> py_error + 'v sitk_image" where
  "SetDirection im v =
     (if length v = length (GetSize im) * length (GetSize im)
      then Inr (im\<lparr>GetDirection := v\<rparr>) else Inl dimension_error)"

definition SetSpacing :: "'v sitk_image \<Rightarrow> f64 list \<Rightarrow> py_error + 'v sitk_image" where
  "SetSpacing im v =
     (if length v = length (GetSize im) then Inr (im\<lparr>GetSpacing := v\<rparr>) else Inl dimension_error)"


section \<open>resample_image\<close>

text \<open>
  The interpolation kernel (\<open>cucim.skimage.transform.resize\<close>, called with
  \<open>mode="edge"\<close> and \<open>anti_aliasing=False\<close>) is outside the repository: it is a
  parameter taking the array, \<open>output_shape\<close> and \<open>order\<close>. The image is the one
  \<open>ReadImage\<close> returned. The result is the list of the \<open>output_shape\<close> arguments of
  the kernel invocations made, and the returned image or the exception raised. The
  \<open>print\<close> statements and the timer are left out.
\<close>

type_synonym 'v resize_kernel = "'v ndarray \<Rightarrow> int list \<Rightarrow> int \<Rightarrow> py_error + 'v ndarray"

text \<open>Lines 347 to 350: the \<open>new_shape\<close> handed to the kernel.\<close>

definition new_shape_of :: "'v ndarray \<Rightarrow> f64 list \<Rightarrow> f64 list \<Rightarrow> py_error + int list" where
  "new_shape_of img spacing target_spacing =
     bind_err (get_resize_factor img spacing target_spacing) (\<lambda>resize_factor.
     bind_err (np_broadcast fmul resize_factor (map f64_of_nat (shape img))) (\<lambda>new_shape.
     map_err py_int new_shape))"

definition resample_image ::
  "'v resize_kernel \<Rightarrow> 'v sitk_image \<Rightarrow> f64 list \<Rightarrow> int \<Rightarrow> int list list \<times> (py_error + 'v sitk_image)" where
  "resample_image resize sitk_img target_spacing order =
     (let img = np_transpose (GetArrayFromImage sitk_img);
          spacing = GetSpacing sitk_img
      in case new_shape_of img spacing target_spacing of
           Inl e \<Rightarrow> ([], Inl e)
         | Inr new_shape \<Rightarrow>
             ([new_shape],
              bind_err (resize img new_shape order) (\<lambda>resampled_img.
              let resampled_img = np_transpose resampled_img
              in bind_err (GetImageFromArray resampled_img) (\<lambda>sitk_out.
                 bind_err (SetOrigin sitk_out (GetOrigin sitk_img)) (\<lambda>sitk_out.
                 bind_err (SetDirection sitk_out (GetDirection sitk_img)) (\<lambda>sitk_out.
                 SetSpacing sitk_out target_spacing))))))"

text \<open>
  A kernel for the examples: every output sample is the first input sample; a
  non-positive extent is refused.
\<close>

definition sample_kernel :: "'v resize_kernel" where
  "sample_kernel a s k =
     (if list_all (\<lambda>n. 0 < n) s
      then Inr \<lparr>shape = map nat s, item = (\<lambda>idx. item a (map (\<lambda>i. 0) idx))\<rparr>
      else Inl (ValueError ''negative dimensions are not allowed''))"

text \<open>An image of \<open>n\<close> samples along each of three axes, with the same spacing on each.\<close>

definition cube_image :: "nat \<Rightarrow> f64 \<Rightarrow> int sitk_image" where
  "cube_image n s =
     \<lparr>GetSize = [n, n, n], GetSpacing = [s, s, s], GetOrigin = [Fin 0, Fin 0, Fin 0],
      GetDirection = [Fin 1, Fin 0, Fin 0, Fin 0, Fin 1, Fin 0, Fin 0, Fin 0, Fin 1],
      GetNumberOfComponentsPerPixel = 1,
      GetPixel = (\<lambda>idx. 0)\<rparr>"

text \<open>The same along each of four axes, as a time series of volumes is.\<close>

definition tesseract_image :: "nat \<Rightarrow> f64 \<Rightarrow> int sitk_image" where
  "tesseract_image n s =
     \<lparr>GetSize = [n, n, n, n], GetSpacing = [s, s, s, s],
      GetOrigin = [Fin 0, Fin 0, Fin 0, Fin 0],
      GetDirection = map (\<lambda>k. if k div 4 = k mod 4 then Fin 1 else Fin 0) [0..<16],
      GetNumberOfComponentsPerPixel = 1,
      GetPixel = (\<lambda>idx. 0)\<rparr>"

text \<open>
  The scalar images \<open>ReadImage\<close> can return: one component per pixel, at least
  two axes, and spacing, origin and direction of the lengths the dimension fixes.
\<close>

definition sitk_wf :: "'v sitk_image \<Rightarrow> bool" where
  "sitk_wf im =
     (GetNumberOfComponentsPerPixel im = 1
      \<and> 2 \<le> length (GetSize im)
      \<and> length (GetSpacing im) = length (GetSize im)
      \<and> length (GetOrigin im) = length (GetSize im)
      \<and> length (GetDirection im) = length (GetSize im) * length (GetSize im))"

text \<open>A spacing entry of an image is a positive finite number.\<close>

fun positive_finite :: "f64 \<Rightarrow> bool" where
  "positive_finite (Fin r) = (0 < r)"
| "positive_finite a = False"

text \<open>
  SimpleITK holds the extents of an image as 32-bit unsigned integers, and an image
  that was read from a file has no empty axis.
\<close>

definition extents_ok :: "'v sitk_image \<Rightarrow> bool" where
  "extents_ok im = list_all (\<lambda>n. 0 < n \<and> n < 2 ^ 32) (GetSize im)"

definition valid_image :: "'v sitk_image \<Rightarrow> bool" where
  "valid_image im = (sitk_wf im \<and> extents_ok im \<and> list_all positive_finite (GetSpacing im))"


section \<open>crop_image_using_mask\<close>

text \<open>
  \<open>bbox\<close>, \<open>img_dim\<close> and the arrays computed from them are int64 arrays: addition
  and subtraction wrap around. \<open>c.CROPPED_PADDING\<close> is a constant of a module that
  is not part of the sources, so it is a parameter, an integer in the int64 range.
\<close>

definition wrap64 :: "int \<Rightarrow> int" where
  "wrap64 x = (x + 2 ^ 63) mod 2 ^ 64 - 2 ^ 63"

definition add64 :: "int \<Rightarrow> int \<Rightarrow> int" where
  "add64 a b = wrap64 (a + b)"

definition sub64 :: "int \<Rightarrow> int \<Rightarrow> int" where
  "sub64 a b = wrap64 (a - b)"

text \<open>
  Indexing with a boolean array: \<open>a[m]\<close> selects the entries where \<open>m\<close> holds,
  \<open>a[m] = v\<close> overwrites them with the entries of \<open>v\<close> in order (or with the single
  entry of \<open>v\<close>).
\<close>

definition selected :: "bool list \<Rightarrow> 'a list \<Rightarrow> 'a list" where
  "selected m xs = map snd (filter fst (zip m xs))"

definition np_select :: "bool list \<Rightarrow> 'a list \<Rightarrow> py_error + 'a list" where
  "np_select m xs =
     (if length m = length xs then Inr (selected m xs)
      else Inl (IndexError ''boolean index did not match indexed array''))"

fun put_seq :: "bool list \<Rightarrow> 'a list \<Rightarrow> 'a list \<Rightarrow> 'a list" where
  "put_seq (True # m) (x # xs) (v # vs) = v # put_seq m xs vs"
| "put_seq (False # m) (x # xs) vs = x # put_seq m xs vs"
| "put_seq m xs vs = xs"

definition np_put :: "bool list \<Rightarrow> 'a list \<Rightarrow> 'a list \<Rightarrow> py_error + 'a list" where
  "np_put m xs vs =
     (if length m \<noteq> length xs
      then Inl (IndexError ''boolean index did not match indexed array'')
      else if length vs = length (filter id m) then Inr (put_seq m xs vs)
      else if length vs = 1 then Inr (map2 (\<lambda>b x. if b then hd vs else x) m xs)
      else Inl (ValueError ''cannot assign input values to the selected output values''))"

text \<open>
  Lines 235 to 244: from the bounding box of the label, the extent of the image and
  the padding to \<open>(new_index, new_size)\<close>, the region handed to
  \<open>RegionOfInterest\<close>.
\<close>

definition crop_box :: "int \<Rightarrow> int list \<Rightarrow> int list \<Rightarrow> py_error + (int list \<times> int list)" where
  "crop_box CROPPED_PADDING img_dim bbox =
     (let start_index = take 3 bbox;
          size = drop 3 bbox;
          new_index = map (\<lambda>a. sub64 a CROPPED_PADDING) start_index;
          new_size = map (\<lambda>a. add64 a CROPPED_PADDING) size;
          lower_bounds = map (\<lambda>a. a \<le> 0) new_index
      in bind_err (np_select lower_bounds start_index) (\<lambda>selected.
         bind_err (np_put lower_bounds new_index selected) (\<lambda>new_index.
         bind_err (np_broadcast add64 new_index new_size) (\<lambda>upper_bounds.
         bind_err (np_broadcast (\<lambda>u d. d \<le> u) upper_bounds img_dim) (\<lambda>out_of_bounds.
         bind_err (np_select out_of_bounds img_dim) (\<lambda>dim_sel.
         bind_err (np_select out_of_bounds new_index) (\<lambda>index_sel.
         bind_err (np_select out_of_bounds size) (\<lambda>size_sel.
         bind_err (np_broadcast add64 index_sel size_sel) (\<lambda>reach.
         bind_err (np_broadcast sub64 dim_sel reach) (\<lambda>padding_value.
         bind_err (np_select out_of_bounds size) (\<lambda>size_sel.
         bind_err (np_broadcast add64 size_sel padding_value) (\<lambda>grown.
         bind_err (np_put out_of_bounds new_size grown) (\<lambda>new_size.
         Inr (new_index, new_size))))))))))))))"

text \<open>
  What \<open>LabelShapeStatisticsImageFilter\<close> computes for \<open>mask == label_intensity\<close>
  and \<open>GetBoundingBox(1)\<close> returns: per axis the least index that holds the label,
  then per axis the number of indices from the least to the greatest. The filter
  raises when no sample holds the label.
\<close>

definition index_space :: "nat list \<Rightarrow> nat list list" where
  "index_space dims = product_lists (map (\<lambda>n. [0..<n]) dims)"

definition GetBoundingBox :: "'v sitk_image \<Rightarrow> 'v \<Rightarrow> py_error + int list" where
  "GetBoundingBox multilabel_mask label_intensity =
     (let voxels = filter (\<lambda>idx. GetPixel multilabel_mask idx = label_intensity)
                          (index_space (GetSize multilabel_mask));
          axes = [0..<length (GetSize multilabel_mask)];
          lo = (\<lambda>k. Min (set (map (\<lambda>idx. idx ! k) voxels)));
          hi = (\<lambda>k. Max (set (map (\<lambda>idx. idx ! k) voxels)))
      in if voxels = [] then Inl (RuntimeError ''label not found'')
         else Inr (map (\<lambda>k. int (lo k)) axes @ map (\<lambda>k. int (hi k) - int (lo k) + 1) axes))"

text \<open>
  \<open>RegionOfInterest\<close> extracts the samples of the region; it refuses a region that
  is empty or not inside the image. The cropped image that is written is stood for
  by its region \<open>(index, size)\<close> of the input image.
\<close>

definition RegionOfInterest :: "'v sitk_image \<Rightarrow> int list \<Rightarrow> int list \<Rightarrow> py_error + (int list \<times> int list)" where
  "RegionOfInterest img new_size new_index =
     (if length new_size = length (GetSize img) \<and> length new_index = length (GetSize img)
         \<and> list_all (\<lambda>(n, i, s). 0 \<le> i \<and> 1 \<le> s \<and> i + s \<le> int n)
               (zip (GetSize img) (zip new_index new_size))
      then Inr (new_index, new_size)
      else Inl (RuntimeError ''requested region is outside the largest possible region''))"

definition crop_image_using_mask ::
  "int \<Rightarrow> 'v sitk_image \<Rightarrow> 'w sitk_image \<Rightarrow> 'w \<Rightarrow> py_error + (int list \<times> int list)" where
  "crop_image_using_mask CROPPED_PADDING img multilabel_mask label_intensity =
     bind_err (GetBoundingBox multilabel_mask label_intensity) (\<lambda>bbox.
     let img_dim = map int (GetSize img)
     in bind_err (crop_box CROPPED_PADDING img_dim bbox) (\<lambda>(new_index, new_size).
        RegionOfInterest img new_size new_index))"

text \<open>
  The clamping of one axis, as the array code performs it: tight start \<open>s\<close>, tight
  size \<open>z\<close>, extent \<open>d\<close> and padding \<open>p\<close>.
\<close>

definition clamp_index :: "int \<Rightarrow> int \<Rightarrow> int" where
  "clamp_index p s = (if sub64 s p \<le> 0 then s else sub64 s p)"

definition clamp_size :: "int \<Rightarrow> int \<Rightarrow> int \<Rightarrow> int \<Rightarrow> int" where
  "clamp_size p d s z =
     (if d \<le> add64 (clamp_index p s) (add64 z p)
      then add64 z (sub64 d (add64 (clamp_index p s) z))
      else add64 z p)"

text \<open>A box lies in an image when, on each axis, it starts at or after 0 and ends at or before the extent.\<close>

definition box_within :: "nat list \<Rightarrow> int list \<Rightarrow> int list \<Rightarrow> bool" where
  "box_within dims new_index new_size =
     (length new_index = length dims \<and> length new_size = length dims
      \<and> list_all (\<lambda>(n, i, s). 0 \<le> i \<and> i + s \<le> int n) (zip dims (zip new_index new_size)))"

text \<open>A mask of the given extents whose only sample with label 1 is at \<open>p\<close>.\<close>

definition point_mask :: "nat list \<Rightarrow> nat list \<Rightarrow> int sitk_image" where
  "point_mask dims p =
     \<lparr>GetSize = dims, GetSpacing = map (\<lambda>n. Fin 1) dims, GetOrigin = map (\<lambda>n. Fin 0) dims,
      GetDirection = map (\<lambda>k. if k div length dims = k mod length dims then Fin 1 else Fin 0)
                       [0..<length dims * length dims],
      GetNumberOfComponentsPerPixel = 1,
      GetPixel = (\<lambda>idx. if idx = p then 1 else 0)\<rparr>"


section \<open>Sequencing and broadcasting\<close>

lemma bind_err_Inr [simp]: "bind_err (Inr x) f = f x"
  by (simp add: bind_err_def)

lemma bind_err_Inl [simp]: "bind_err (Inl e) f = Inl e"
  by (simp add: bind_err_def)

lemma np_broadcast_same_length:
  "length xs = length ys \<Longrightarrow> np_broadcast f xs ys = Inr (map2 f xs ys)"
  by (simp add: np_broadcast_def)


section \<open>The resize factor\<close>

text \<open>
  C1. For every array shape and spacings of matching axis count,
  \<open>get_resize_factor\<close> returns, on each axis, the factor recomputed from the rounded
  provisional shape: \<open>round(n * (s_old / s_new)) / n\<close>, every operation in float64
  as the three steps of the specification name them. The hypothesis on the signs
  of the spacings is not needed.
\<close>

theorem get_resize_factor_recomputed:
  assumes "length spacing = length (shape img)"
    and "length target_spacing = length (shape img)"
  shows "get_resize_factor img spacing target_spacing =
         Inr (map (\<lambda>(n, s_old, s_new). recomputed_factor n s_old s_new)
                (zip (shape img) (zip spacing target_spacing)))"
proof -
  let ?sh = "map f64_of_nat (shape img)"
  let ?rf = "map2 fdiv spacing target_spacing"
  let ?ns = "map np_round (map2 fmul ?sh ?rf)"
  have "get_resize_factor img spacing target_spacing = Inr (map2 fdiv ?ns ?sh)"
    using assms by (simp add: get_resize_factor_def np_broadcast_same_length)
  moreover have "map2 fdiv ?ns ?sh =
      map (\<lambda>(n, s_old, s_new). recomputed_factor n s_old s_new)
        (zip (shape img) (zip spacing target_spacing))"
    using assms
    by (intro nth_equalityI)
       (simp_all add: recomputed_factor_def provisional_shape_def first_pass_factor_def)
  ultimately show ?thesis by simp
qed

theorem get_resize_factor_recomputed_witness:
  "get_resize_factor \<lparr>shape = [22, 4], item = (\<lambda>idx. 0 :: int)\<rparr>
     [Fin 1, Fin 1] [Fin (3 / 2), Fin 2] =
   Inr [recomputed_factor 22 (Fin 1) (Fin (3 / 2)), recomputed_factor 4 (Fin 1) (Fin 2)]"
  using get_resize_factor_recomputed
    [of "[Fin 1, Fin 1]" "\<lparr>shape = [22, 4], item = (\<lambda>idx. 0 :: int)\<rparr>" "[Fin (3 / 2), Fin 2]"]
  by simp

text \<open>
  The recomputed factor is not the first-pass factor: for an axis of 22 samples
  resampled from spacing 1 to spacing 1.5 the two differ.
\<close>

lemma recomputed_factor_not_first_pass:
  "recomputed_factor 22 (Fin 1) (Fin (3 / 2)) \<noteq> first_pass_factor (Fin 1) (Fin (3 / 2))"
  by code_simp

text \<open>
  C10. The result of \<open>get_resize_factor\<close> depends on the shape of the array and on
  the two spacing vectors only: two arrays of the same shape, whatever their
  samples, give the same result.
\<close>

theorem get_resize_factor_shape_only:
  "shape a = shape b \<Longrightarrow>
   get_resize_factor a spacing target_spacing = get_resize_factor b spacing target_spacing"
  by (simp add: get_resize_factor_def)

theorem get_resize_factor_shape_only_witness:
  "shape \<lparr>shape = [2, 3], item = (\<lambda>idx. 0 :: int)\<rparr> = shape \<lparr>shape = [2, 3], item = (\<lambda>idx. 7 :: int)\<rparr>
   \<and> get_resize_factor \<lparr>shape = [2, 3], item = (\<lambda>idx. 0 :: int)\<rparr> [Fin 1, Fin 1] [Fin 2, Fin 2] =
     get_resize_factor \<lparr>shape = [2, 3], item = (\<lambda>idx. 7 :: int)\<rparr> [Fin 1, Fin 1] [Fin 2, Fin 2]"
  using get_resize_factor_shape_only
    [of "\<lparr>shape = [2, 3], item = (\<lambda>idx. 0 :: int)\<rparr>" "\<lparr>shape = [2, 3], item = (\<lambda>idx. 7 :: int)\<rparr>"
        "[Fin 1, Fin 1]" "[Fin 2, Fin 2]"]
  by simp


section \<open>The shape handed to the interpolation kernel\<close>

text \<open>
  C2. The shape handed to the kernel is not always the nearest integer to
  extent * spacing / target spacing. For 22 samples at spacing 1 and target spacing
  1.5 the quotient is 14.67 and the nearest integer is 15; the provisional shape is
  15, the recomputed factor is the float nearest to 15 / 22, its product with 22 is
  the float just below 15, and \<open>int\<close> truncates it to 14.
\<close>

theorem resample_image_shape_truncated:
  "fst (resample_image sample_kernel (cube_image 22 (Fin 1)) [Fin (3 / 2), Fin (3 / 2), Fin (3 / 2)] 3)
     = [ [14, 14, 14] ]
   \<and> provisional_shape 22 (Fin 1) (Fin (3 / 2)) = Fin 15
   \<and> round_half_even (22 * 1 / (3 / 2)) = 15"
  by code_simp


section \<open>The clamped bounding box\<close>

text \<open>
  C9. Image extent (100,100,100), tight box with start (2,2,2) and size (10,10,10),
  padding 5: the clamped box has start (2,2,2) and size (15,15,15).
\<close>

theorem crop_box_lower_clamp_example:
  "crop_box 5 [100, 100, 100] [2, 2, 2, 10, 10, 10] = Inr ([2, 2, 2], [15, 15, 15])"
  by code_simp

text \<open>
  C4, as stated: image extent (20,20,20), tight box with start (15,15,15) and size
  (3,3,3), padding 5. The size of the clamped box is not (5,5,5).
\<close>

theorem crop_box_upper_example_counterexample:
  "map_sum id snd (crop_box 5 [20, 20, 20] [15, 15, 15, 3, 3, 3]) \<noteq> Inr [5, 5, 5]"
  by code_simp

text \<open>
  C4, amended: for this call the padded start is 15 - 5 = 10 and the padded size is
  3 + 5 = 8; the box ends at 18, below the extent 20, so the upper clamp does not
  fire. The clamped box has start (10,10,10) and size (8,8,8) and lies in the image.
\<close>

theorem crop_box_upper_example:
  "crop_box 5 [20, 20, 20] [15, 15, 15, 3, 3, 3] = Inr ([10, 10, 10], [8, 8, 8])
   \<and> box_within [20, 20, 20] [10, 10, 10] [8, 8, 8]"
  by code_simp


section \<open>Exact float64 operations\<close>

text \<open>
  An integer below \<open>2 ^ 53\<close> is a float64 number: rounding leaves it as it is.
\<close>

lemma round_half_even_of_int: "round_half_even (of_int k) = k"
  by (simp add: round_half_even_def)

lemma pow2_nonpos: "e \<le> 0 \<Longrightarrow> pow2 e = 1 / 2 ^ nat (- e)"
  by (cases "e = 0") (simp_all add: pow2_def)

lemma floor_log2_of_nat: "0 < n \<Longrightarrow> floor_log2 (of_nat n) = bitlen (int n) - 1"
  by (simp add: floor_log2_def)

text \<open>
  The model of the rounding is the one of the standard: \<open>floor_log2\<close> is the
  binary exponent, \<open>round_half_even\<close> is within one half of its argument, and
  the double nearest to one tenth is the known one.
\<close>

lemma pow2_add_one: "pow2 (e + 1) = 2 * pow2 e"
proof (cases "0 \<le> e")
  case True
  then show ?thesis by (simp add: pow2_def nat_add_distrib)
next
  case False
  then have "nat (- e) = Suc (nat (- e - 1))" by simp
  then have "(2::rat) ^ nat (- e) = 2 * 2 ^ nat (- e - 1)"
    by (metis power_Suc)
  with False show ?thesis
    by (cases "e = - 1") (simp_all add: pow2_def)
qed

lemma floor_log2_bounds:
  assumes "0 < x"
  shows "pow2 (floor_log2 x) \<le> x \<and> x < pow2 (floor_log2 x + 1)"
proof (cases "1 \<le> x")
  case True
  define m where "m = \<lfloor>x\<rfloor>"
  from True have m: "0 < m" by (simp add: m_def)
  then have b1: "1 \<le> bitlen m" by (simp add: bitlen_ge_iff_power)
  from bitlen_bounds [OF m] have lo: "2 ^ nat (bitlen m - 1) \<le> m" and hi: "m < 2 ^ nat (bitlen m)"
    by simp_all
  have "(2::rat) ^ nat (bitlen m - 1) = of_int (2 ^ nat (bitlen m - 1))" by simp
  also have "\<dots> \<le> of_int m" using lo by (simp only: of_int_le_iff)
  also have "\<dots> \<le> x" unfolding m_def by linarith
  finally have l: "(2::rat) ^ nat (bitlen m - 1) \<le> x" .
  have "m + 1 \<le> 2 ^ nat (bitlen m)" using hi by simp
  then have "(of_int (m + 1) :: rat) \<le> of_int (2 ^ nat (bitlen m))"
    by (simp only: of_int_le_iff)
  moreover have "x < of_int (m + 1)" unfolding m_def by linarith
  ultimately have h: "x < 2 ^ nat (bitlen m)" by simp
  have "floor_log2 x = bitlen m - 1" using True by (simp add: floor_log2_def m_def)
  with l h b1 show ?thesis by (simp add: pow2_def)
next
  case False
  define y where "y = 1 / x"
  define m where "m = \<lceil>y\<rceil> - 1"
  from False assms have y1: "1 < y" by (simp add: y_def)
  then have m: "0 < m" by (simp add: m_def less_ceiling_iff)
  then have b1: "1 \<le> bitlen m" by (simp add: bitlen_ge_iff_power)
  from bitlen_bounds [OF m] have lo: "2 ^ nat (bitlen m - 1) \<le> m" and hi: "m < 2 ^ nat (bitlen m)"
    by simp_all
  have "(2::rat) ^ nat (bitlen m - 1) = of_int (2 ^ nat (bitlen m - 1))" by simp
  also have "\<dots> \<le> of_int m" using lo by (simp only: of_int_le_iff)
  also have "\<dots> < y" unfolding m_def by linarith
  finally have l: "(2::rat) ^ nat (bitlen m - 1) < y" .
  have "m + 1 \<le> 2 ^ nat (bitlen m)" using hi by simp
  then have "(of_int (m + 1) :: rat) \<le> of_int (2 ^ nat (bitlen m))"
    by (simp only: of_int_le_iff)
  moreover have "y \<le> of_int (m + 1)" unfolding m_def by linarith
  ultimately have h: "y \<le> 2 ^ nat (bitlen m)" by simp
  have e: "floor_log2 x = - bitlen m" using False by (simp add: floor_log2_def m_def y_def)
  have x: "x = 1 / y" using assms by (simp add: y_def)
  have p1: "pow2 (- bitlen m) = 1 / 2 ^ nat (bitlen m)"
    using b1 by (simp add: pow2_nonpos)
  have "1 - bitlen m \<le> 0" using b1 by simp
  from pow2_nonpos [OF this] have p2: "pow2 (- bitlen m + 1) = 1 / 2 ^ nat (bitlen m - 1)"
    by simp
  have "1 / 2 ^ nat (bitlen m) \<le> 1 / y"
    using h y1 by (simp add: frac_le)
  then have lower: "1 / 2 ^ nat (bitlen m) \<le> x"
    by (simp only: x)
  have "1 / y < 1 / 2 ^ nat (bitlen m - 1)"
    using l by (simp add: frac_less2)
  then have upper: "x < 1 / 2 ^ nat (bitlen m - 1)"
    by (simp only: x)
  from lower upper show ?thesis
    unfolding e p1 p2 by simp
qed

lemma round_half_even_nearest: "\<bar>x - of_int (round_half_even x)\<bar> \<le> 1 / 2"
proof -
  have "of_int \<lfloor>x\<rfloor> \<le> x" and "x < of_int \<lfloor>x\<rfloor> + 1" by linarith+
  then show ?thesis
    by (auto simp: round_half_even_def Let_def abs_le_iff)
qed

lemma round64_tenth: "round64 (1 / 10) = Fin (3602879701896397 / 36028797018963968)"
  by code_simp

lemma round64_finite:
  assumes "x \<noteq> 0"
    and "max (floor_log2 \<bar>x\<bar>) (- 1022) = e"
    and "of_int (round_half_even (x / pow2 (e - 52))) * pow2 (e - 52) = y"
    and "floor_log2 \<bar>y\<bar> < 1024"
  shows "round64 x = Fin y"
  using assms by (simp add: round64_def Let_def)

lemma round64_of_nat:
  assumes "n < 2 ^ 53"
  shows "round64 (of_nat n) = Fin (of_nat n)"
proof (cases "n = 0")
  case True
  then show ?thesis by (simp add: round64_def)
next
  case False
  define b where "b = bitlen (int n)"
  define k where "k = nat (53 - b)"
  from False have pos: "0 < int n" by simp
  have "int n < 2 ^ nat 53" using assms by (simp add: nat_less_iff flip: of_nat_less_iff)
  then have b_le: "b \<le> 53" unfolding b_def by (simp add: bitlen_le_iff_power)
  have b_ge: "1 \<le> b" unfolding b_def using pos by (simp add: bitlen_ge_iff_power)
  have fl: "floor_log2 \<bar>of_nat n\<bar> = b - 1"
    using False by (simp add: floor_log2_of_nat b_def)
  have e: "max (floor_log2 \<bar>of_nat n :: rat\<bar>) (- 1022) = b - 1"
    using fl b_ge by simp
  have q: "pow2 (b - 1 - 52) = 1 / 2 ^ k"
    using b_le by (simp add: pow2_nonpos k_def)
  have m: "(of_nat n :: rat) / (1 / 2 ^ k) = of_int (int n * 2 ^ k)"
    by simp
  have y: "of_int (round_half_even (of_nat n / pow2 (b - 1 - 52))) * pow2 (b - 1 - 52) = (of_nat n :: rat)"
    unfolding q m round_half_even_of_int by simp
  have "floor_log2 \<bar>of_nat n :: rat\<bar> < 1024"
    using fl b_le by simp
  with False e y show ?thesis
    by (intro round64_finite [where e = "b - 1"]) simp_all
qed

lemma round64_one: "round64 1 = Fin 1"
  using round64_of_nat [of 1] by simp

lemma f64_of_nat_exact: "n < 2 ^ 53 \<Longrightarrow> f64_of_nat n = Fin (of_nat n)"
  by (simp add: f64_of_nat_def round64_of_nat)

lemma round_half_even_of_nat: "round_half_even (of_nat n) = int n"
  using round_half_even_of_int [of "int n"] by simp


section \<open>Resampling to the spacing the image has\<close>

lemma axis_new_shape_unfold:
  "axis_new_shape n s_old s_new =
   fmul (fdiv (np_round (fmul (f64_of_nat n) (fdiv s_old s_new))) (f64_of_nat n)) (f64_of_nat n)"
  by (simp add: axis_new_shape_def recomputed_factor_def provisional_shape_def first_pass_factor_def)

lemma identity_axis:
  assumes "0 < n" and "n < 2 ^ 53" and "positive_finite s"
  shows "axis_new_shape n s s = Fin (of_nat n)"
proof -
  from assms(3) obtain r where s: "s = Fin r" and r: "0 < r"
    by (cases s) simp_all
  have one: "fdiv s s = Fin 1"
    using r by (simp add: s round64_one)
  have n: "f64_of_nat n = Fin (of_nat n)"
    using assms(2) by (rule f64_of_nat_exact)
  have prov: "np_round (fmul (Fin (of_nat n)) (Fin 1)) = Fin (of_nat n)"
    using assms(2) by (simp add: round64_of_nat round_half_even_of_nat)
  have recomp: "fdiv (Fin (of_nat n)) (Fin (of_nat n)) = Fin 1"
    using assms(1) by (simp add: round64_one)
  show ?thesis
    unfolding axis_new_shape_unfold one n prov recomp
    using assms(2) by (simp add: round64_of_nat)
qed

lemma map_err_py_int_nat: "map_err py_int (map (\<lambda>n. Fin (of_nat n)) ns) = Inr (map int ns)"
  by (induction ns) simp_all

lemma new_shape_of_same_length:
  assumes "length spacing = length (shape img)" and "length target_spacing = length (shape img)"
  shows "new_shape_of img spacing target_spacing =
         map_err py_int
           (map (\<lambda>(n, s_old, s_new). axis_new_shape n s_old s_new)
              (zip (shape img) (zip spacing target_spacing)))"
proof -
  let ?sh = "map f64_of_nat (shape img)"
  let ?rf = "map2 fdiv (map np_round (map2 fmul ?sh (map2 fdiv spacing target_spacing))) ?sh"
  have "new_shape_of img spacing target_spacing = map_err py_int (map2 fmul ?rf ?sh)"
    using assms by (simp add: new_shape_of_def get_resize_factor_def np_broadcast_same_length)
  moreover have "map2 fmul ?rf ?sh =
      map (\<lambda>(n, s_old, s_new). axis_new_shape n s_old s_new)
        (zip (shape img) (zip spacing target_spacing))"
    using assms by (intro nth_equalityI) (simp_all add: axis_new_shape_unfold)
  ultimately show ?thesis by simp
qed

lemma new_shape_of_identity:
  assumes "length spacing = length (shape img)"
    and "list_all (\<lambda>n. 0 < n \<and> n < 2 ^ 32) (shape img)"
    and "list_all positive_finite spacing"
  shows "new_shape_of img spacing spacing = Inr (map int (shape img))"
proof -
  have "map (\<lambda>(n, s_old, s_new). axis_new_shape n s_old s_new)
          (zip (shape img) (zip spacing spacing))
        = map (\<lambda>n. Fin (of_nat n)) (shape img)"
  proof (intro nth_equalityI)
    show "length (map (\<lambda>(n, s_old, s_new). axis_new_shape n s_old s_new)
          (zip (shape img) (zip spacing spacing))) = length (map (\<lambda>n. Fin (rat_of_nat n)) (shape img))"
      using assms(1) by simp
  next
    fix i
    assume "i < length (map (\<lambda>(n, s_old, s_new). axis_new_shape n s_old s_new)
          (zip (shape img) (zip spacing spacing)))"
    then have i: "i < length (shape img)" using assms(1) by simp
    then have n: "0 < shape img ! i" "shape img ! i < 2 ^ 32"
      using assms(2) by (simp_all add: list_all_length)
    have n53: "shape img ! i < 2 ^ 53"
      using n(2) by (rule less_trans) simp
    have s: "positive_finite (spacing ! i)"
      using assms(1,3) i by (simp add: list_all_length)
    show "map (\<lambda>(n, s_old, s_new). axis_new_shape n s_old s_new)
          (zip (shape img) (zip spacing spacing)) ! i = map (\<lambda>n. Fin (rat_of_nat n)) (shape img) ! i"
      using i assms(1) identity_axis [OF n(1) n53 s] by simp
  qed
  then show ?thesis
    using assms(1) by (simp add: new_shape_of_same_length map_err_py_int_nat)
qed

lemma shape_transposed_array:
  "GetNumberOfComponentsPerPixel sitk_img = 1 \<Longrightarrow>
   shape (np_transpose (GetArrayFromImage sitk_img)) = GetSize sitk_img"
  by (simp add: np_transpose_def GetArrayFromImage_def)

lemma resample_image_raises:
  "new_shape_of (np_transpose (GetArrayFromImage sitk_img)) (GetSpacing sitk_img) target_spacing = Inl e
   \<Longrightarrow> resample_image resize sitk_img target_spacing order = ([], Inl e)"
  by (simp add: resample_image_def Let_def)

text \<open>
  What follows the kernel, lines 372 to 378: the array \<open>b\<close> it returned becomes an
  image again and receives origin, direction and spacing.
\<close>

lemma resample_image_after_kernel:
  assumes "new_shape_of (np_transpose (GetArrayFromImage sitk_img)) (GetSpacing sitk_img) target_spacing
           = Inr new_shape"
    and "resize (np_transpose (GetArrayFromImage sitk_img)) new_shape order = Inr b"
  shows "resample_image resize sitk_img target_spacing order =
         ([new_shape],
          bind_err (GetImageFromArray (np_transpose b)) (\<lambda>sitk_out.
          bind_err (SetOrigin sitk_out (GetOrigin sitk_img)) (\<lambda>sitk_out.
          bind_err (SetDirection sitk_out (GetDirection sitk_img)) (\<lambda>sitk_out.
          SetSpacing sitk_out target_spacing))))"
  unfolding resample_image_def Let_def assms(1) by (simp add: assms(2))

lemma metadata_scalar:
  assumes "length (shape b) \<noteq> 4" and "2 \<le> length (shape b)" and "length (shape b) \<le> 5"
    and "length origin = length (shape b)"
    and "length direction = length (shape b) * length (shape b)"
    and "length target_spacing = length (shape b)"
  shows "\<exists>out. bind_err (GetImageFromArray (np_transpose b)) (\<lambda>sitk_out.
               bind_err (SetOrigin sitk_out origin) (\<lambda>sitk_out.
               bind_err (SetDirection sitk_out direction) (\<lambda>sitk_out.
               SetSpacing sitk_out target_spacing))) = Inr out
             \<and> GetSize out = shape b \<and> GetNumberOfComponentsPerPixel out = 1"
  using assms
  by (simp add: GetImageFromArray_def np_transpose_def Let_def SetOrigin_def SetDirection_def
      SetSpacing_def)

lemma metadata_mismatch:
  assumes "2 \<le> length (shape b)" and "length (shape b) \<le> 5"
    and "length origin = length (shape b)"
    and "length direction = length (shape b) * length (shape b)"
    and "length target_spacing \<noteq> length (shape b)"
  shows "bind_err (GetImageFromArray (np_transpose b)) (\<lambda>sitk_out.
         bind_err (SetOrigin sitk_out origin) (\<lambda>sitk_out.
         bind_err (SetDirection sitk_out direction) (\<lambda>sitk_out.
         SetSpacing sitk_out target_spacing))) = Inl dimension_error"
  using assms
  by (simp add: GetImageFromArray_def np_transpose_def Let_def SetOrigin_def SetDirection_def
      SetSpacing_def)

lemma metadata_four_axes:
  assumes "length (shape b) = 4" and "length origin = 4"
  shows "bind_err (GetImageFromArray (np_transpose b)) (\<lambda>sitk_out.
         bind_err (SetOrigin sitk_out origin) (\<lambda>sitk_out.
         bind_err (SetDirection sitk_out direction) (\<lambda>sitk_out.
         SetSpacing sitk_out target_spacing))) = Inl dimension_error"
  using assms
  by (simp add: GetImageFromArray_def np_transpose_def Let_def SetOrigin_def)

lemma valid_cube_image: "0 < n \<Longrightarrow> n < 2 ^ 32 \<Longrightarrow> 0 < r \<Longrightarrow> valid_image (cube_image n (Fin r))"
  by (simp add: valid_image_def sitk_wf_def extents_ok_def cube_image_def)

lemma valid_tesseract_image:
  "0 < n \<Longrightarrow> n < 2 ^ 32 \<Longrightarrow> 0 < r \<Longrightarrow> valid_image (tesseract_image n (Fin r))"
  by (simp add: valid_image_def sitk_wf_def extents_ok_def tesseract_image_def)

text \<open>
  C8, as stated. An image of four axes, as a time series of volumes is, is an image
  \<open>ReadImage\<close> returns. With its own spacing as target the kernel receives the
  extents of the input and returns the requested array, but \<open>GetImageFromArray\<close>
  reads an array of four axes as a three-dimensional image of vector pixels, and
  \<open>SetOrigin\<close> rejects the origin of four entries: the call raises and returns no
  image.
\<close>

theorem resample_image_identity_four_axes_counterexample:
  "valid_image (tesseract_image 2 (Fin 1))
   \<and> fst (resample_image sample_kernel (tesseract_image 2 (Fin 1))
            (GetSpacing (tesseract_image 2 (Fin 1))) 0) = [ [2, 2, 2, 2] ]
   \<and> map_sum id GetSize
        (snd (resample_image sample_kernel (tesseract_image 2 (Fin 1))
               (GetSpacing (tesseract_image 2 (Fin 1))) 0)) = Inl dimension_error"
proof -
  have "valid_image (tesseract_image 2 (Fin 1))"
    by (simp add: valid_tesseract_image)
  moreover have "fst (resample_image sample_kernel (tesseract_image 2 (Fin 1))
            (GetSpacing (tesseract_image 2 (Fin 1))) 0) = [ [2, 2, 2, 2] ]"
    by code_simp
  moreover have "map_sum id GetSize
        (snd (resample_image sample_kernel (tesseract_image 2 (Fin 1))
               (GetSpacing (tesseract_image 2 (Fin 1))) 0)) = Inl dimension_error"
    by code_simp
  ultimately show ?thesis by simp
qed

text \<open>
  C8, amended. For a scalar image of two, three or five axes as \<open>ReadImage\<close>
  returns it (no empty axis, positive finite spacing; SimpleITK has no image of
  more than five axes), \<open>resample_image\<close> with the
  image's own spacing as target and order 0 hands the image's own extents to the
  kernel, and when the kernel returns an array of these extents the call returns an
  image whose array has the shape of the input's array.
\<close>

theorem resample_image_identity:
  assumes "valid_image sitk_img"
    and "length (GetSize sitk_img) \<noteq> 4" and "length (GetSize sitk_img) \<le> 5"
    and "resize (np_transpose (GetArrayFromImage sitk_img)) (map int (GetSize sitk_img)) 0 = Inr b"
    and "shape b = GetSize sitk_img"
  shows "\<exists>out. resample_image resize sitk_img (GetSpacing sitk_img) 0
                 = ([map int (GetSize sitk_img)], Inr out)
               \<and> shape (GetArrayFromImage out) = shape (GetArrayFromImage sitk_img)"
proof -
  let ?img = "np_transpose (GetArrayFromImage sitk_img)"
  from assms(1) have wf: "sitk_wf sitk_img" and ext: "extents_ok sitk_img"
    and sp: "list_all positive_finite (GetSpacing sitk_img)"
    by (simp_all add: valid_image_def)
  from wf have scalar: "GetNumberOfComponentsPerPixel sitk_img = 1"
    by (simp add: sitk_wf_def)
  have sh: "shape ?img = GetSize sitk_img"
    using scalar by (rule shape_transposed_array)
  have ns: "new_shape_of ?img (GetSpacing sitk_img) (GetSpacing sitk_img) = Inr (map int (GetSize sitk_img))"
    using new_shape_of_identity [of "GetSpacing sitk_img" ?img] wf ext sp
    by (simp add: sh sitk_wf_def extents_ok_def)
  from metadata_scalar [of b "GetOrigin sitk_img" "GetDirection sitk_img" "GetSpacing sitk_img"]
  obtain out where out: "bind_err (GetImageFromArray (np_transpose b)) (\<lambda>sitk_out.
               bind_err (SetOrigin sitk_out (GetOrigin sitk_img)) (\<lambda>sitk_out.
               bind_err (SetDirection sitk_out (GetDirection sitk_img)) (\<lambda>sitk_out.
               SetSpacing sitk_out (GetSpacing sitk_img)))) = Inr out"
    and size_out: "GetSize out = shape b" and scalar_out: "GetNumberOfComponentsPerPixel out = 1"
    using wf assms(2,3,5) by (auto simp: sitk_wf_def)
  have "resample_image resize sitk_img (GetSpacing sitk_img) 0 = ([map int (GetSize sitk_img)], Inr out)"
    using resample_image_after_kernel [where resize = resize, OF ns assms(4)] out by simp
  moreover have "shape (GetArrayFromImage out) = shape (GetArrayFromImage sitk_img)"
    using size_out scalar_out scalar assms(5) by (simp add: GetArrayFromImage_def)
  ultimately show ?thesis by blast
qed

theorem resample_image_identity_witness:
  "valid_image (cube_image 4 (Fin 1)) \<and> length (GetSize (cube_image 4 (Fin 1))) \<noteq> 4
   \<and> length (GetSize (cube_image 4 (Fin 1))) \<le> 5
   \<and> (\<exists>out. resample_image sample_kernel (cube_image 4 (Fin 1)) (GetSpacing (cube_image 4 (Fin 1))) 0
                 = ([map int (GetSize (cube_image 4 (Fin 1)))], Inr out)
               \<and> shape (GetArrayFromImage out) = shape (GetArrayFromImage (cube_image 4 (Fin 1))))"
proof -
  let ?img = "np_transpose (GetArrayFromImage (cube_image 4 (Fin 1)))"
  let ?b = "\<lparr>shape = [4, 4, 4], item = (\<lambda>idx. item ?img (map (\<lambda>i. 0) idx))\<rparr>"
  have v: "valid_image (cube_image 4 (Fin 1))"
    by (simp add: valid_cube_image)
  have d: "length (GetSize (cube_image 4 (Fin 1))) \<noteq> 4"
    by (simp add: cube_image_def)
  have f: "length (GetSize (cube_image 4 (Fin 1))) \<le> 5"
    by (simp add: cube_image_def)
  have k: "sample_kernel ?img (map int (GetSize (cube_image 4 (Fin 1)))) 0 = Inr ?b"
    by (simp add: sample_kernel_def cube_image_def)
  have s: "shape ?b = GetSize (cube_image 4 (Fin 1))"
    by (simp add: cube_image_def)
  from resample_image_identity [where resize = sample_kernel, OF v d f k s] v d f show ?thesis
    by blast
qed


section \<open>Target spacings that are not valid\<close>

lemma round64_not_nan: "round64 x \<noteq> NaN"
  by (simp add: round64_def Let_def)

lemma fdiv_not_nan:
  "positive_finite a \<Longrightarrow> b \<noteq> NaN \<Longrightarrow> fdiv a b \<noteq> NaN"
  by (cases a; cases b) (simp_all add: round64_not_nan)

lemma fmul_fin_not_nan:
  "r \<noteq> 0 \<Longrightarrow> a \<noteq> NaN \<Longrightarrow> fmul (Fin r) a \<noteq> NaN"
  by (cases a) (simp_all add: round64_not_nan)

lemma fmul_fin_not_nan_right:
  "r \<noteq> 0 \<Longrightarrow> a \<noteq> NaN \<Longrightarrow> fmul a (Fin r) \<noteq> NaN"
  by (cases a) (simp_all add: round64_not_nan)

lemma fdiv_fin_not_nan:
  "r \<noteq> 0 \<Longrightarrow> a \<noteq> NaN \<Longrightarrow> fdiv a (Fin r) \<noteq> NaN"
  by (cases a) (simp_all add: round64_not_nan)

lemma np_round_not_nan: "a \<noteq> NaN \<Longrightarrow> np_round a \<noteq> NaN"
  by (cases a) simp_all

lemma axis_new_shape_not_nan:
  assumes "0 < n" and "n < 2 ^ 53" and "positive_finite s_old" and "s_new \<noteq> NaN"
  shows "axis_new_shape n s_old s_new \<noteq> NaN"
proof -
  have n: "f64_of_nat n = Fin (of_nat n)" and nz: "(of_nat n :: rat) \<noteq> 0"
    using assms(1,2) by (simp_all add: f64_of_nat_exact)
  show ?thesis
    unfolding axis_new_shape_unfold n
    by (intro fmul_fin_not_nan_right fdiv_fin_not_nan np_round_not_nan fmul_fin_not_nan
        fdiv_not_nan nz assms)
qed

lemma axis_new_shape_zero_spacing:
  assumes "0 < n" and "n < 2 ^ 53" and "positive_finite s_old"
  shows "axis_new_shape n s_old (Fin 0) = PInf"
proof -
  have n: "f64_of_nat n = Fin (of_nat n)"
    using assms(2) by (simp add: f64_of_nat_exact)
  from assms(3) obtain r where "s_old = Fin r" and "0 < r"
    by (cases s_old) simp_all
  then show ?thesis
    using assms(1) by (simp add: axis_new_shape_unfold n)
qed

lemma py_int_error: "py_int a = Inl e \<Longrightarrow> e = inf_to_int_error \<or> e = nan_to_int_error"
  by (cases a) auto

lemma py_int_nan_error: "py_int a = Inl nan_to_int_error \<Longrightarrow> a = NaN"
  by (cases a) (auto simp: nan_to_int_error_def inf_to_int_error_def)

lemma map_err_raises:
  assumes "x \<in> set xs" and "f x = Inl e"
  shows "\<exists>y e'. y \<in> set xs \<and> f y = Inl e' \<and> map_err f xs = Inl e'"
  using assms
proof (induction xs)
  case Nil
  then show ?case by simp
next
  case (Cons a xs)
  show ?case
  proof (cases "f a")
    case (Inl e1)
    then show ?thesis by auto
  next
    case (Inr b)
    with Cons.prems have "x \<in> set xs" by auto
    from Cons.IH [OF this Cons.prems(2)] obtain y e' where
      "y \<in> set xs" "f y = Inl e'" "map_err f xs = Inl e'" by blast
    with Inr show ?thesis by auto
  qed
qed

text \<open>
  C3, as stated. A negative entry is not rejected: for the target spacing
  \<open>(-2, 1, 1)\<close> the kernel is invoked, with the extent \<open>-2\<close> on the first axis. A
  zero entry does end the call before the kernel, but the exception is the
  \<open>OverflowError\<close> of \<open>int(inf)\<close>, not a value error.
\<close>

theorem resample_image_bad_spacing_counterexample:
  "fst (resample_image sample_kernel (cube_image 4 (Fin 1)) [Fin (- 2), Fin 1, Fin 1] 0) = [ [- 2, 4, 4] ]
   \<and> fst (resample_image sample_kernel (cube_image 4 (Fin 1)) [Fin 0, Fin 1, Fin 1] 0) = []
   \<and> map_sum id GetSize (snd (resample_image sample_kernel (cube_image 4 (Fin 1)) [Fin 0, Fin 1, Fin 1] 0))
       = Inl inf_to_int_error
   \<and> \<not> is_ValueError inf_to_int_error"
  by code_simp

text \<open>
  C3, amended. For an image as \<open>ReadImage\<close> returns it and a target spacing of
  matching length with a zero entry, \<open>resample_image\<close> raises before the kernel
  is invoked. The exception comes from the conversion of a non-finite shape entry
  to \<open>int\<close>; it is \<open>OverflowError\<close> unless an earlier entry of the target spacing
  is NaN.
\<close>

theorem resample_image_zero_spacing:
  assumes "valid_image sitk_img"
    and "length target_spacing = length (GetSize sitk_img)"
    and "Fin 0 \<in> set target_spacing"
  shows "\<exists>e. resample_image resize sitk_img target_spacing order = ([], Inl e)
             \<and> (e = inf_to_int_error \<or> e = nan_to_int_error)
             \<and> (NaN \<notin> set target_spacing \<longrightarrow> e = inf_to_int_error)"
proof -
  let ?img = "np_transpose (GetArrayFromImage sitk_img)"
  let ?axes = "zip (GetSize sitk_img) (zip (GetSpacing sitk_img) target_spacing)"
  let ?floats = "map (\<lambda>(n, s_old, s_new). axis_new_shape n s_old s_new) ?axes"
  from assms(1) have len: "length (GetSpacing sitk_img) = length (GetSize sitk_img)"
    and scalar: "GetNumberOfComponentsPerPixel sitk_img = 1"
    and ext: "list_all (\<lambda>n. 0 < n \<and> n < 2 ^ 32) (GetSize sitk_img)"
    and sp: "list_all positive_finite (GetSpacing sitk_img)"
    by (simp_all add: valid_image_def sitk_wf_def extents_ok_def)
  have axis: "0 < n \<and> n < 2 ^ 53 \<and> positive_finite s_old \<and> s_new \<in> set target_spacing"
    if "(n, s_old, s_new) \<in> set ?axes" for n s_old s_new
  proof -
    from that have "n \<in> set (GetSize sitk_img)" and "(s_old, s_new) \<in> set (zip (GetSpacing sitk_img) target_spacing)"
      by (auto dest: set_zip_leftD set_zip_rightD)
    then have "n \<in> set (GetSize sitk_img)" "s_old \<in> set (GetSpacing sitk_img)" "s_new \<in> set target_spacing"
      by (auto dest: set_zip_leftD set_zip_rightD)
    with ext sp have "0 < n" "n < 2 ^ 32" "positive_finite s_old" "s_new \<in> set target_spacing"
      by (auto simp: list_all_iff)
    moreover have "(2::nat) ^ 32 < 2 ^ 53" by simp
    ultimately show ?thesis by (meson less_trans)
  qed
  have ns: "new_shape_of ?img (GetSpacing sitk_img) target_spacing = map_err py_int ?floats"
    using len scalar assms(2) by (simp add: new_shape_of_same_length shape_transposed_array)
  from assms(3) obtain i where i: "i < length target_spacing" "target_spacing ! i = Fin 0"
    by (auto simp: in_set_conv_nth)
  let ?n = "GetSize sitk_img ! i" and ?s = "GetSpacing sitk_img ! i"
  have "?axes ! i = (?n, ?s, Fin 0)" and "i < length ?axes"
    using i len assms(2) by simp_all
  then have mem: "(?n, ?s, Fin 0) \<in> set ?axes"
    by (metis nth_mem)
  from axis [OF mem] have "axis_new_shape ?n ?s (Fin 0) = PInf"
    by (simp add: axis_new_shape_zero_spacing)
  then have "py_int (axis_new_shape ?n ?s (Fin 0)) = Inl inf_to_int_error"
    by simp
  moreover have "axis_new_shape ?n ?s (Fin 0) \<in> set ?floats"
    using mem by force
  ultimately obtain y e where y: "y \<in> set ?floats" and ye: "py_int y = Inl e"
    and me: "map_err py_int ?floats = Inl e"
    using map_err_raises [of "axis_new_shape ?n ?s (Fin 0)" ?floats py_int inf_to_int_error]
    by blast
  have res: "resample_image resize sitk_img target_spacing order = ([], Inl e)"
    using ns me by (simp add: resample_image_raises)
  have kind: "e = inf_to_int_error \<or> e = nan_to_int_error"
    using ye by (rule py_int_error)
  have "e = inf_to_int_error" if no_nan: "NaN \<notin> set target_spacing"
  proof (rule ccontr)
    assume "e \<noteq> inf_to_int_error"
    with kind ye have "y = NaN" by (auto dest: py_int_nan_error)
    moreover from y obtain n s_old s_new where m: "(n, s_old, s_new) \<in> set ?axes"
      and "y = axis_new_shape n s_old s_new"
      by auto
    moreover from axis [OF m] no_nan have "axis_new_shape n s_old s_new \<noteq> NaN"
      by (intro axis_new_shape_not_nan) auto
    ultimately show False by simp
  qed
  with res kind show ?thesis by blast
qed

theorem resample_image_zero_spacing_witness:
  "valid_image (cube_image 4 (Fin 1))
   \<and> length [Fin 0, Fin 1, Fin 1] = length (GetSize (cube_image 4 (Fin 1)))
   \<and> Fin 0 \<in> set [Fin 0, Fin 1, Fin 1]
   \<and> (\<exists>e. resample_image (sample_kernel :: int resize_kernel) (cube_image 4 (Fin 1)) [Fin 0, Fin 1, Fin 1] 0
             = ([], Inl e)
           \<and> (e = inf_to_int_error \<or> e = nan_to_int_error)
           \<and> (NaN \<notin> set [Fin 0, Fin 1, Fin 1] \<longrightarrow> e = inf_to_int_error))"
proof -
  have v: "valid_image (cube_image 4 (Fin 1))"
    by (simp add: valid_cube_image)
  have l: "length [Fin 0, Fin 1, Fin 1] = length (GetSize (cube_image 4 (Fin 1)))"
    by (simp add: cube_image_def)
  have z: "Fin 0 \<in> set [Fin 0, Fin 1, Fin 1]"
    by simp
  from resample_image_zero_spacing [OF v l z, of sample_kernel 0] v l z show ?thesis
    by blast
qed

text \<open>
  C6, as stated. A target spacing of length one does not have the image's axis
  count, yet numpy broadcasts it: for \<open>[0.0]\<close> on a three-dimensional image the
  call ends with the \<open>OverflowError\<close> of \<open>int(inf)\<close>, which is neither numpy's
  broadcasting error nor SimpleITK's dimension error.
\<close>

theorem resample_image_length_one_counterexample:
  "length [Fin 0] \<noteq> length (GetSize (cube_image 4 (Fin 1)))
   \<and> fst (resample_image sample_kernel (cube_image 4 (Fin 1)) [Fin 0] 0) = []
   \<and> map_sum id GetSize (snd (resample_image sample_kernel (cube_image 4 (Fin 1)) [Fin 0] 0))
       = Inl inf_to_int_error
   \<and> inf_to_int_error \<noteq> broadcast_error
   \<and> inf_to_int_error \<noteq> dimension_error"
  by code_simp

lemma np_broadcast_length:
  "np_broadcast f xs ys = Inr zs \<Longrightarrow> length xs \<noteq> 1 \<Longrightarrow> length zs = length xs"
  by (auto simp: np_broadcast_def split: if_splits)

lemma map_err_length: "map_err f xs = Inr ys \<Longrightarrow> length ys = length xs"
  by (induction xs arbitrary: ys) (auto split: sum.splits)

lemma new_shape_of_length:
  assumes "new_shape_of img spacing target_spacing = Inr new_shape"
    and "length spacing = length (shape img)" and "length (shape img) \<noteq> 1"
  shows "length new_shape = length (shape img)"
proof -
  let ?sh = "map f64_of_nat (shape img)"
  from assms(1) obtain rf ns rf2 fl where
    a: "np_broadcast fdiv spacing target_spacing = Inr rf"
    and b: "np_broadcast fmul ?sh rf = Inr ns"
    and c: "np_broadcast fdiv (map np_round ns) ?sh = Inr rf2"
    and d: "np_broadcast fmul rf2 ?sh = Inr fl"
    and e: "map_err py_int fl = Inr new_shape"
    by (auto simp: new_shape_of_def get_resize_factor_def bind_err_def Let_def split: sum.splits)
  from np_broadcast_length [OF b] assms(3) have "length ns = length (shape img)"
    by simp
  with np_broadcast_length [OF c] assms(3) have "length rf2 = length (shape img)"
    by simp
  with np_broadcast_length [OF d] assms(3) have "length fl = length (shape img)"
    by simp
  with map_err_length [OF e] show ?thesis by simp
qed

lemma metadata_never_fits:
  assumes "length target_spacing \<noteq> length origin"
  shows "\<exists>e. bind_err (GetImageFromArray a) (\<lambda>sitk_out.
              bind_err (SetOrigin sitk_out origin) (\<lambda>sitk_out.
              bind_err (SetDirection sitk_out direction) (\<lambda>sitk_out.
              SetSpacing sitk_out target_spacing))) = Inl e"
  using assms
  by (auto simp: bind_err_def SetOrigin_def SetDirection_def SetSpacing_def
      split: sum.splits if_splits)

text \<open>
  C6, amended. When the length of the target spacing differs from the axis count
  of the image, a scalar image of at most five axes as SimpleITK has them,
  \<open>resample_image\<close> raises and returns no image, whatever the kernel does.
  The exception is a dimension mismatch unless another exception comes first. When
  the length is not one it is numpy's broadcasting \<open>ValueError\<close>, raised at the
  first division of \<open>get_resize_factor\<close> before the kernel is invoked. When the
  length is one numpy broadcasts the entry to every axis; if the conversion of the
  shape to \<open>int\<close> raises nothing and the kernel returns an array of the requested
  shape, a setter of SimpleITK raises its dimension mismatch. What can come first,
  for length one only, is the exception of the conversion or of the kernel.
\<close>

theorem resample_image_length_mismatch:
  assumes "sitk_wf sitk_img" and "length (GetSize sitk_img) \<le> 5"
    and "length target_spacing \<noteq> length (GetSize sitk_img)"
  shows "(\<exists>e. snd (resample_image resize sitk_img target_spacing order) = Inl e)
       \<and> (length target_spacing \<noteq> 1 \<longrightarrow>
            resample_image resize sitk_img target_spacing order = ([], Inl broadcast_error))
       \<and> (\<forall>new_shape b.
            new_shape_of (np_transpose (GetArrayFromImage sitk_img)) (GetSpacing sitk_img)
              target_spacing = Inr new_shape
            \<longrightarrow> resize (np_transpose (GetArrayFromImage sitk_img)) new_shape order = Inr b
            \<longrightarrow> shape b = map nat new_shape
            \<longrightarrow> resample_image resize sitk_img target_spacing order
                 = ([new_shape], Inl dimension_error))"
proof -
  let ?img = "np_transpose (GetArrayFromImage sitk_img)"
  from assms(1) have len: "length (GetSpacing sitk_img) = length (GetSize sitk_img)"
    and org: "length (GetOrigin sitk_img) = length (GetSize sitk_img)"
    and dir: "length (GetDirection sitk_img) = length (GetSize sitk_img) * length (GetSize sitk_img)"
    and lo: "2 \<le> length (GetSize sitk_img)"
    and scalar: "GetNumberOfComponentsPerPixel sitk_img = 1"
    by (simp_all add: sitk_wf_def)
  note hi = assms(2)
  have sh: "shape ?img = GetSize sitk_img"
    using scalar by (rule shape_transposed_array)
  have fails: "\<exists>e. snd (resample_image resize sitk_img target_spacing order) = Inl e"
  proof (cases "new_shape_of ?img (GetSpacing sitk_img) target_spacing")
    case (Inl e)
    then show ?thesis by (simp add: resample_image_raises)
  next
    case (Inr new_shape)
    show ?thesis
    proof (cases "resize ?img new_shape order")
      case (Inl e)
      then show ?thesis
        unfolding resample_image_def Let_def Inr by simp
    next
      case kernel: (Inr b)
      from assms(3) org have "length target_spacing \<noteq> length (GetOrigin sitk_img)"
        by simp
      from metadata_never_fits [OF this] show ?thesis
        unfolding resample_image_after_kernel [where resize = resize, OF Inr kernel] by simp
    qed
  qed
  have broadcast: "resample_image resize sitk_img target_spacing order = ([], Inl broadcast_error)"
    if "length target_spacing \<noteq> 1"
  proof -
    from that assms(3) len lo
    have "np_broadcast fdiv (GetSpacing sitk_img) target_spacing = Inl broadcast_error"
      by (simp add: np_broadcast_def)
    then show ?thesis
      by (simp add: resample_image_raises new_shape_of_def get_resize_factor_def)
  qed
  have setter: "resample_image resize sitk_img target_spacing order = ([new_shape], Inl dimension_error)"
    if ns: "new_shape_of ?img (GetSpacing sitk_img) target_spacing = Inr new_shape"
      and kernel: "resize ?img new_shape order = Inr b"
      and shb: "shape b = map nat new_shape"
    for new_shape b
  proof -
    from new_shape_of_length [OF ns] len lo have "length new_shape = length (GetSize sitk_img)"
      by (simp add: sh)
    with shb have rank: "length (shape b) = length (GetSize sitk_img)"
      by simp
    have "bind_err (GetImageFromArray (np_transpose b)) (\<lambda>sitk_out.
          bind_err (SetOrigin sitk_out (GetOrigin sitk_img)) (\<lambda>sitk_out.
          bind_err (SetDirection sitk_out (GetDirection sitk_img)) (\<lambda>sitk_out.
          SetSpacing sitk_out target_spacing))) = Inl dimension_error"
    proof (cases "length (shape b) = 4")
      case True
      with rank org show ?thesis
        by (intro metadata_four_axes) simp_all
    next
      case False
      with rank org dir lo hi assms(3) show ?thesis
        by (intro metadata_mismatch) simp_all
    qed
    then show ?thesis
      using resample_image_after_kernel [where resize = resize, OF ns kernel] by simp
  qed
  from fails broadcast setter show ?thesis
    by blast
qed

theorem resample_image_length_mismatch_witness:
  "sitk_wf (cube_image 4 (Fin 1)) \<and> length (GetSize (cube_image 4 (Fin 1))) \<le> 5
   \<and> length [Fin 2] \<noteq> length (GetSize (cube_image 4 (Fin 1)))
   \<and> (\<exists>e. snd (resample_image (sample_kernel :: int resize_kernel) (cube_image 4 (Fin 1)) [Fin 2] 0) = Inl e)
   \<and> resample_image (sample_kernel :: int resize_kernel) (cube_image 4 (Fin 1)) [Fin 2] 0
       = ([ [2, 2, 2] ], Inl dimension_error)
   \<and> length [Fin 2, Fin 2] \<noteq> length (GetSize (cube_image 4 (Fin 1)))
   \<and> resample_image (sample_kernel :: int resize_kernel) (cube_image 4 (Fin 1)) [Fin 2, Fin 2] 0
       = ([], Inl broadcast_error)"
proof -
  let ?img = "np_transpose (GetArrayFromImage (cube_image 4 (Fin 1)))"
  let ?b = "\<lparr>shape = [2, 2, 2], item = (\<lambda>idx. item ?img (map (\<lambda>i. 0) idx))\<rparr>"
  have w: "sitk_wf (cube_image 4 (Fin 1))"
    by (simp add: sitk_wf_def cube_image_def)
  have f: "length (GetSize (cube_image 4 (Fin 1))) \<le> 5"
    by (simp add: cube_image_def)
  have l1: "length [Fin 2] \<noteq> length (GetSize (cube_image 4 (Fin 1)))"
    by (simp add: cube_image_def)
  have l2: "length [Fin 2, Fin 2] \<noteq> length (GetSize (cube_image 4 (Fin 1)))"
    by (simp add: cube_image_def)
  have ns: "new_shape_of ?img (GetSpacing (cube_image 4 (Fin 1))) [Fin 2] = Inr [2, 2, 2]"
    by code_simp
  have k: "sample_kernel ?img [2, 2, 2] 0 = Inr ?b"
    by (simp add: sample_kernel_def)
  have s: "shape ?b = map nat [2, 2, 2]"
    by simp
  from resample_image_length_mismatch [where resize = sample_kernel and order = 0, OF w f l1]
  have "\<exists>e. snd (resample_image (sample_kernel :: int resize_kernel) (cube_image 4 (Fin 1)) [Fin 2] 0) = Inl e"
    and "resample_image (sample_kernel :: int resize_kernel) (cube_image 4 (Fin 1)) [Fin 2] 0
         = ([ [2, 2, 2] ], Inl dimension_error)"
    using ns k s by blast+
  moreover from resample_image_length_mismatch [where resize = sample_kernel and order = 0, OF w f l2]
  have "resample_image (sample_kernel :: int resize_kernel) (cube_image 4 (Fin 1)) [Fin 2, Fin 2] 0
         = ([], Inl broadcast_error)"
    by simp
  ultimately show ?thesis
    using w f l1 l2 by blast
qed


section \<open>The clamped box lies in the image\<close>

text \<open>
  The array code of \<open>crop_box\<close>, with its boolean masks, computes on each axis
  \<open>clamp_index\<close> and \<open>clamp_size\<close>, when the image has three axes.
\<close>

lemma wrap64_id: "- (2 ^ 63) \<le> x \<Longrightarrow> x < 2 ^ 63 \<Longrightarrow> wrap64 x = x"
  by (simp add: wrap64_def)

lemma length_selected:
  "length m = length xs \<Longrightarrow> length (selected m xs) = length (filter id m)"
  by (induction m xs rule: list_induct2) (simp_all add: selected_def)

lemma selected_map2:
  "length m = length xs \<Longrightarrow> length xs = length ys \<Longrightarrow>
   map2 f (selected m xs) (selected m ys) = selected m (map2 f xs ys)"
  by (induction m xs ys rule: list_induct3) (simp_all add: selected_def)

lemma put_seq_selected:
  "length m = length xs \<Longrightarrow> length xs = length vs \<Longrightarrow>
   put_seq m xs (selected m vs) = map (\<lambda>(b, x, v). if b then v else x) (zip m (zip xs vs))"
proof (induction m xs vs rule: list_induct3)
  case Nil
  then show ?case by simp
next
  case (Cons b m x xs v vs)
  then show ?case by (cases b) (simp_all add: selected_def)
qed

lemma np_select_same_length: "length m = length xs \<Longrightarrow> np_select m xs = Inr (selected m xs)"
  by (simp add: np_select_def)

lemma np_put_selected:
  "length m = length xs \<Longrightarrow> length xs = length vs \<Longrightarrow>
   np_put m xs (selected m vs) = Inr (map (\<lambda>(b, x, v). if b then v else x) (zip m (zip xs vs)))"
  by (simp add: np_put_def length_selected put_seq_selected)

lemma np_broadcast_selected:
  "length m = length xs \<Longrightarrow> length xs = length ys \<Longrightarrow>
   np_broadcast f (selected m xs) (selected m ys) = Inr (selected m (map2 f xs ys))"
  by (simp add: np_broadcast_same_length length_selected selected_map2)

lemma crop_box_by_axis:
  assumes "length start_index = length img_dim" and "length sz = length img_dim"
    and "bbox = start_index @ sz" and "length img_dim = 3"
  shows "crop_box p img_dim bbox =
         Inr (map (clamp_index p) start_index,
              map (\<lambda>(d, s, z). clamp_size p d s z) (zip img_dim (zip start_index sz)))"
proof -
  define new_index0 where "new_index0 = map (\<lambda>a. sub64 a p) start_index"
  define new_size0 where "new_size0 = map (\<lambda>a. add64 a p) sz"
  define lower_bounds where "lower_bounds = map (\<lambda>a. a \<le> 0) new_index0"
  define new_index where "new_index = map (clamp_index p) start_index"
  define upper_bounds where "upper_bounds = map2 add64 new_index new_size0"
  define out_of_bounds where "out_of_bounds = map2 (\<lambda>u d. d \<le> u) upper_bounds img_dim"
  define grown where "grown = map2 add64 sz (map2 sub64 img_dim (map2 add64 new_index sz))"
  have tk: "take 3 bbox = start_index" and dr: "drop 3 bbox = sz"
    using assms by simp_all
  have len: "length new_index0 = length img_dim" "length new_size0 = length img_dim"
    "length lower_bounds = length img_dim" "length new_index = length img_dim"
    "length upper_bounds = length img_dim" "length out_of_bounds = length img_dim"
    "length grown = length img_dim"
    using assms(1,2)
    by (simp_all add: new_index0_def new_size0_def lower_bounds_def new_index_def
        upper_bounds_def out_of_bounds_def grown_def)
  have s1: "np_select lower_bounds start_index = Inr (selected lower_bounds start_index)"
    using len assms(1) by (simp add: np_select_same_length)
  have "map (\<lambda>(b, x, v). if b then v else x) (zip lower_bounds (zip new_index0 start_index)) = new_index"
    using assms(1) len
    by (intro nth_equalityI)
       (simp_all add: new_index_def lower_bounds_def new_index0_def clamp_index_def)
  then have s2: "np_put lower_bounds new_index0 (selected lower_bounds start_index) = Inr new_index"
    using len assms(1) by (simp add: np_put_selected)
  have s3: "np_broadcast add64 new_index new_size0 = Inr upper_bounds"
    using len by (simp add: np_broadcast_same_length upper_bounds_def)
  have s4: "np_broadcast (\<lambda>u d. d \<le> u) upper_bounds img_dim = Inr out_of_bounds"
    using len by (simp add: np_broadcast_same_length out_of_bounds_def)
  have s5: "np_select out_of_bounds img_dim = Inr (selected out_of_bounds img_dim)"
    "np_select out_of_bounds new_index = Inr (selected out_of_bounds new_index)"
    "np_select out_of_bounds sz = Inr (selected out_of_bounds sz)"
    using len assms(2) by (simp_all add: np_select_same_length)
  have s6: "np_broadcast add64 (selected out_of_bounds new_index) (selected out_of_bounds sz)
            = Inr (selected out_of_bounds (map2 add64 new_index sz))"
    using len assms(2) by (simp add: np_broadcast_selected)
  have s7: "np_broadcast sub64 (selected out_of_bounds img_dim)
              (selected out_of_bounds (map2 add64 new_index sz))
            = Inr (selected out_of_bounds (map2 sub64 img_dim (map2 add64 new_index sz)))"
    using len assms(2) by (simp add: np_broadcast_selected)
  have s8: "np_broadcast add64 (selected out_of_bounds sz)
              (selected out_of_bounds (map2 sub64 img_dim (map2 add64 new_index sz)))
            = Inr (selected out_of_bounds grown)"
    using len assms(2) by (simp add: np_broadcast_selected grown_def)
  have "map (\<lambda>(b, x, v). if b then v else x) (zip out_of_bounds (zip new_size0 grown))
        = map (\<lambda>(d, s, z). clamp_size p d s z) (zip img_dim (zip start_index sz))"
    using assms(1,2) len
    by (intro nth_equalityI)
       (simp_all add: out_of_bounds_def upper_bounds_def new_size0_def grown_def new_index_def
          clamp_size_def)
  then have s9: "np_put out_of_bounds new_size0 (selected out_of_bounds grown)
            = Inr (map (\<lambda>(d, s, z). clamp_size p d s z) (zip img_dim (zip start_index sz)))"
    using len by (simp add: np_put_selected)
  show ?thesis
    unfolding crop_box_def Let_def tk dr
    unfolding new_index0_def [symmetric] new_size0_def [symmetric]
    unfolding lower_bounds_def [symmetric]
    by (simp add: s1 s2 s3 s4 s5 s6 s7 s8 s9 new_index_def [symmetric])
qed

lemma index_space_bound:
  assumes "idx \<in> set (index_space dims)" and "k < length dims"
  shows "idx ! k < dims ! k"
proof -
  from assms(1) have "list_all2 (\<lambda>x ys. x \<in> set ys) idx (map (\<lambda>n. [0..<n]) dims)"
    by (simp add: index_space_def product_lists_set)
  with assms(2) have "idx ! k \<in> set (map (\<lambda>n. [0..<n]) dims ! k)"
    by (auto dest: list_all2_nthD2)
  with assms(2) show ?thesis by simp
qed

lemma GetBoundingBox_within:
  assumes "GetBoundingBox multilabel_mask label_intensity = Inr bbox"
  shows "\<exists>start_index sz. bbox = start_index @ sz
           \<and> length start_index = length (GetSize multilabel_mask)
           \<and> length sz = length (GetSize multilabel_mask)
           \<and> (\<forall>k < length (GetSize multilabel_mask).
                 0 \<le> start_index ! k \<and> 1 \<le> sz ! k
                 \<and> start_index ! k + sz ! k \<le> int (GetSize multilabel_mask ! k))"
proof -
  define dims where "dims = GetSize multilabel_mask"
  define voxels where
    "voxels = filter (\<lambda>idx. GetPixel multilabel_mask idx = label_intensity) (index_space dims)"
  define lo where "lo = (\<lambda>k. Min (set (map (\<lambda>idx. idx ! k) voxels)))"
  define hi where "hi = (\<lambda>k. Max (set (map (\<lambda>idx. idx ! k) voxels)))"
  define start_index where "start_index = map (\<lambda>k. int (lo k)) [0..<length dims]"
  define sz where "sz = map (\<lambda>k. int (hi k) - int (lo k) + 1) [0..<length dims]"
  from assms have ne: "voxels \<noteq> []" and bbox: "bbox = start_index @ sz"
    by (auto simp: GetBoundingBox_def Let_def voxels_def dims_def lo_def hi_def
        start_index_def sz_def split: if_splits)
  have axis: "lo k \<le> hi k \<and> hi k < dims ! k" if "k < length dims" for k
  proof -
    let ?cs = "set (map (\<lambda>idx. idx ! k) voxels)"
    have fin: "finite ?cs" and nemp: "?cs \<noteq> {}"
      using ne by simp_all
    have "hi k \<in> ?cs"
      unfolding hi_def using fin nemp by (rule Max_in)
    then obtain idx where "idx \<in> set voxels" and "hi k = idx ! k"
      by auto
    then have "hi k < dims ! k"
      using that by (auto simp: voxels_def intro: index_space_bound)
    moreover have "lo k \<le> hi k"
      unfolding lo_def using fin \<open>hi k \<in> ?cs\<close> by (rule Min_le)
    ultimately show ?thesis by simp
  qed
  have "0 \<le> start_index ! k \<and> 1 \<le> sz ! k \<and> start_index ! k + sz ! k \<le> int (dims ! k)"
    if "k < length dims" for k
  proof -
    from axis [OF that] have "int (lo k) \<le> int (hi k)" and "int (hi k) < int (dims ! k)"
      by simp_all
    then show ?thesis
      using that by (simp add: start_index_def sz_def)
  qed
  then have "\<forall>k < length dims. 0 \<le> start_index ! k \<and> 1 \<le> sz ! k
          \<and> start_index ! k + sz ! k \<le> int (dims ! k)"
    by blast
  moreover have "length start_index = length dims" and "length sz = length dims"
    by (simp_all add: start_index_def sz_def)
  ultimately show ?thesis
    unfolding dims_def [symmetric] using bbox by blast
qed

lemma clamp_axis_bounds:
  assumes "0 \<le> s" and "1 \<le> z" and "s + z \<le> d" and "d < 2 ^ 32" and "0 \<le> p" and "p < 2 ^ 62"
  shows "0 \<le> clamp_index p s \<and> 1 \<le> clamp_size p d s z \<and> clamp_index p s + clamp_size p d s z \<le> d"
proof -
  have sub: "sub64 s p = s - p"
    using assms by (simp add: sub64_def wrap64_id)
  have idx: "clamp_index p s = (if s - p \<le> 0 then s else s - p)"
    by (simp add: clamp_index_def sub)
  have i0: "0 \<le> clamp_index p s" and i1: "clamp_index p s \<le> s"
    using assms by (simp_all add: idx)
  have zp: "add64 z p = z + p"
    using assms by (simp add: add64_def wrap64_id)
  have ub: "add64 (clamp_index p s) (z + p) = clamp_index p s + z + p"
    using assms i0 i1 by (simp add: add64_def wrap64_id)
  have iz: "add64 (clamp_index p s) z = clamp_index p s + z"
    using assms i0 i1 by (simp add: add64_def wrap64_id)
  have pv: "sub64 d (clamp_index p s + z) = d - (clamp_index p s + z)"
    using assms i0 i1 by (simp add: sub64_def wrap64_id)
  have gr: "add64 z (d - (clamp_index p s + z)) = d - clamp_index p s"
    using assms i0 i1 by (simp add: add64_def wrap64_id)
  have sz: "clamp_size p d s z =
            (if d \<le> clamp_index p s + z + p then d - clamp_index p s else z + p)"
    by (simp add: clamp_size_def zp ub iz pv gr)
  show ?thesis
    using assms i0 i1 by (simp add: sz)
qed

lemma crop_box_in_image:
  assumes bb: "GetBoundingBox multilabel_mask label_intensity = Inr bbox"
    and d3: "length (GetSize img) = 3"
    and le: "list_all2 (\<le>) (GetSize multilabel_mask) (GetSize img)"
    and ext: "extents_ok img"
    and p: "0 \<le> p" "p < 2 ^ 62"
  shows "\<exists>new_index new_size.
           crop_box p (map int (GetSize img)) bbox = Inr (new_index, new_size)
           \<and> length new_index = 3 \<and> length new_size = 3
           \<and> (\<forall>k < 3. 0 \<le> new_index ! k \<and> 1 \<le> new_size ! k
                  \<and> new_index ! k + new_size ! k \<le> int (GetSize img ! k))"
proof -
  from le have m3: "length (GetSize multilabel_mask) = 3"
    using d3 by (simp add: list_all2_lengthD)
  from GetBoundingBox_within [OF bb] obtain start_index sz where
    bbox: "bbox = start_index @ sz"
    and ls: "length start_index = 3" and lz: "length sz = 3"
    and tight: "\<forall>k < 3. 0 \<le> start_index ! k \<and> 1 \<le> sz ! k
                 \<and> start_index ! k + sz ! k \<le> int (GetSize multilabel_mask ! k)"
    unfolding m3 by blast
  let ?dim = "map int (GetSize img)"
  let ?ni = "map (clamp_index p) start_index"
  let ?ns = "map (\<lambda>(d, s, z). clamp_size p d s z) (zip ?dim (zip start_index sz))"
  have box: "crop_box p ?dim bbox = Inr (?ni, ?ns)"
    using ls lz d3 bbox by (intro crop_box_by_axis) simp_all
  have "0 \<le> ?ni ! k \<and> 1 \<le> ?ns ! k \<and> ?ni ! k + ?ns ! k \<le> int (GetSize img ! k)"
    if k: "k < 3" for k
  proof -
    from tight k have t: "0 \<le> start_index ! k" "1 \<le> sz ! k"
      "start_index ! k + sz ! k \<le> int (GetSize multilabel_mask ! k)"
      by simp_all
    from le k m3 have "GetSize multilabel_mask ! k \<le> GetSize img ! k"
      by (simp add: list_all2_nthD)
    with t(3) have fit: "start_index ! k + sz ! k \<le> int (GetSize img ! k)"
      by simp
    from ext k d3 have "GetSize img ! k < 2 ^ 32"
      by (simp add: extents_ok_def list_all_length)
    then have small: "int (GetSize img ! k) < 2 ^ 32"
      by (simp flip: of_nat_less_iff)
    from clamp_axis_bounds [OF t(1) t(2) fit small p] show ?thesis
      using k ls lz d3 by simp
  qed
  with box ls lz d3 show ?thesis by simp
qed

lemma box_within_3:
  assumes "length dims = 3" and "length new_index = 3" and "length new_size = 3"
    and "\<forall>k < 3. 0 \<le> new_index ! k \<and> 1 \<le> new_size ! k \<and> new_index ! k + new_size ! k \<le> int (dims ! k)"
  shows "box_within dims new_index new_size"
    and "list_all (\<lambda>(n, i, s). 0 \<le> i \<and> 1 \<le> s \<and> i + s \<le> int n) (zip dims (zip new_index new_size))"
  using assms by (simp_all add: box_within_def list_all_length)

lemma point_mask_bbox:
  "GetBoundingBox (point_mask [2, 2, 2] [1, 1, 1]) 1 = Inr [1, 1, 1, 1, 1, 1]"
  by code_simp

lemma extents_ok_cube_image: "0 < n \<Longrightarrow> n < 2 ^ 32 \<Longrightarrow> extents_ok (cube_image n s)"
  by (simp add: extents_ok_def cube_image_def)

text \<open>
  C5. When the label is present in the mask (the filter returns its bounding box),
  the mask has the extents of the image, which has three axes, and the padding is
  not negative, the code returns a clamped box, and on every axis the box starts
  at or after 0 and ends at or before the extent of the image. The extents are
  32-bit values and the padding is below \<open>2 ^ 62\<close>, so that no int64 operation
  wraps.
\<close>

theorem crop_box_within_image:
  assumes "GetBoundingBox multilabel_mask label_intensity = Inr bbox"
    and "GetSize multilabel_mask = GetSize img"
    and "length (GetSize img) = 3"
    and "extents_ok img"
    and "0 \<le> p" and "p < 2 ^ 62"
  shows "\<exists>new_index new_size.
           crop_box p (map int (GetSize img)) bbox = Inr (new_index, new_size)
           \<and> box_within (GetSize img) new_index new_size"
proof -
  have "list_all2 (\<le>) (GetSize multilabel_mask) (GetSize img)"
    using assms(2) by (simp add: list_all2_same)
  from crop_box_in_image [OF assms(1,3) this assms(4-6)] obtain new_index new_size where
    "crop_box p (map int (GetSize img)) bbox = Inr (new_index, new_size)"
    and "length new_index = 3" and "length new_size = 3"
    and "\<forall>k < 3. 0 \<le> new_index ! k \<and> 1 \<le> new_size ! k
           \<and> new_index ! k + new_size ! k \<le> int (GetSize img ! k)"
    by blast
  then show ?thesis
    using assms(3) box_within_3(1) by blast
qed

theorem crop_box_within_image_witness:
  "GetBoundingBox (point_mask [2, 2, 2] [1, 1, 1]) 1 = Inr [1, 1, 1, 1, 1, 1]
   \<and> GetSize (point_mask [2, 2, 2] [1, 1, 1]) = GetSize (cube_image 2 (Fin 1))
   \<and> length (GetSize (cube_image 2 (Fin 1))) = 3
   \<and> extents_ok (cube_image 2 (Fin 1))
   \<and> (0 :: int) \<le> 1 \<and> (1 :: int) < 2 ^ 62
   \<and> (\<exists>new_index new_size.
         crop_box 1 (map int (GetSize (cube_image 2 (Fin 1)))) [1, 1, 1, 1, 1, 1] = Inr (new_index, new_size)
         \<and> box_within (GetSize (cube_image 2 (Fin 1))) new_index new_size)"
proof -
  have b: "GetBoundingBox (point_mask [2, 2, 2] [1, 1, 1]) 1 = Inr [1, 1, 1, 1, 1, 1]"
    by (rule point_mask_bbox)
  have e: "GetSize (point_mask [2, 2, 2] [1, 1, 1]) = GetSize (cube_image 2 (Fin 1))"
    by (simp add: point_mask_def cube_image_def)
  have d: "length (GetSize (cube_image 2 (Fin 1))) = 3"
    by (simp add: cube_image_def)
  have x: "extents_ok (cube_image 2 (Fin 1))"
    by (simp add: extents_ok_cube_image)
  have p0: "(0 :: int) \<le> 1" and p1: "(1 :: int) < 2 ^ 62"
    by simp_all
  from crop_box_within_image [OF b e d x p0 p1] b e d x p0 p1 show ?thesis
    by blast
qed

text \<open>
  C7, as stated. An image of extent (4,4,4) and a mask of extent (2,2,2) differ in
  extent, and the call returns the region with start (1,1,1) and size (2,2,2)
  instead of raising.
\<close>

theorem crop_image_using_mask_extents_counterexample:
  "GetSize (cube_image 4 (Fin 1)) \<noteq> GetSize (point_mask [2, 2, 2] [1, 1, 1])
   \<and> crop_image_using_mask 1 (cube_image 4 (Fin 1)) (point_mask [2, 2, 2] [1, 1, 1]) 1
       = Inr ([1, 1, 1], [2, 2, 2])"
  by code_simp

text \<open>
  C7, amended. \<open>crop_image_using_mask\<close> never compares the extent of the image
  with the extent of the mask. For an image of three axes whose extent is at least
  the mask's on every axis, equal or not, a label that is present and a padding
  that is not negative, the call raises nothing and returns a region that lies in
  the image.
\<close>

theorem crop_image_using_mask_no_extent_check:
  assumes "GetBoundingBox multilabel_mask label_intensity = Inr bbox"
    and "length (GetSize img) = 3"
    and "list_all2 (\<le>) (GetSize multilabel_mask) (GetSize img)"
    and "extents_ok img"
    and "0 \<le> p" and "p < 2 ^ 62"
  shows "\<exists>new_index new_size.
           crop_image_using_mask p img multilabel_mask label_intensity = Inr (new_index, new_size)
           \<and> box_within (GetSize img) new_index new_size"
proof -
  from crop_box_in_image [OF assms] obtain new_index new_size where
    box: "crop_box p (map int (GetSize img)) bbox = Inr (new_index, new_size)"
    and len: "length new_index = 3" "length new_size = 3"
    and fit: "\<forall>k < 3. 0 \<le> new_index ! k \<and> 1 \<le> new_size ! k
           \<and> new_index ! k + new_size ! k \<le> int (GetSize img ! k)"
    by blast
  from box_within_3 [OF assms(2) len fit]
  have "RegionOfInterest img new_size new_index = Inr (new_index, new_size)"
    and "box_within (GetSize img) new_index new_size"
    using assms(2) len by (simp_all add: RegionOfInterest_def)
  then show ?thesis
    using assms(1) box by (simp add: crop_image_using_mask_def Let_def)
qed

theorem crop_image_using_mask_no_extent_check_witness:
  "GetBoundingBox (point_mask [2, 2, 2] [1, 1, 1]) 1 = Inr [1, 1, 1, 1, 1, 1]
   \<and> length (GetSize (cube_image 4 (Fin 1))) = 3
   \<and> list_all2 (\<le>) (GetSize (point_mask [2, 2, 2] [1, 1, 1])) (GetSize (cube_image 4 (Fin 1)))
   \<and> extents_ok (cube_image 4 (Fin 1))
   \<and> (0 :: int) \<le> 1 \<and> (1 :: int) < 2 ^ 62
   \<and> (\<exists>new_index new_size.
         crop_image_using_mask 1 (cube_image 4 (Fin 1)) (point_mask [2, 2, 2] [1, 1, 1]) 1
           = Inr (new_index, new_size)
         \<and> box_within (GetSize (cube_image 4 (Fin 1))) new_index new_size)"
proof -
  have b: "GetBoundingBox (point_mask [2, 2, 2] [1, 1, 1]) 1 = Inr [1, 1, 1, 1, 1, 1]"
    by (rule point_mask_bbox)
  have d: "length (GetSize (cube_image 4 (Fin 1))) = 3"
    by (simp add: cube_image_def)
  have l: "list_all2 (\<le>) (GetSize (point_mask [2, 2, 2] [1, 1, 1])) (GetSize (cube_image 4 (Fin 1)))"
    by (simp add: point_mask_def cube_image_def)
  have x: "extents_ok (cube_image 4 (Fin 1))"
    by (simp add: extents_ok_cube_image)
  have p0: "(0 :: int) \<le> 1" and p1: "(1 :: int) < 2 ^ 62"
    by simp_all
  from crop_image_using_mask_no_extent_check [OF b d l x p0 p1] b d l x p0 p1 show ?thesis
    by blast
qed

end
